theory Spec2Isabelle
  imports Main
begin

section \<open>Data model\<close>

text \<open>
  The history engine of \<^verbatim>\<open>src/editor/utils/with-history/index.js\<close> never looks inside a
  document state: it only compares document states with \<^verbatim>\<open>===\<close>. A document state is
  therefore a handle of an arbitrary type \<open>'d\<close> whose HOL equality is the engine's
  reference comparison. A dispatch calls the base reducer at most once, and its result
  is a function of the handle and the action it was given; the two initial calls of the
  buffered variant, which may return two objects, are kept apart. The slots of a history
  state hold JavaScript values, so a slot read out of range (\<^verbatim>\<open>past[ -1 ]\<close>) holds
  \<^verbatim>\<open>undefined\<close>.
\<close>

datatype 'd val = Undefined | Doc 'd

text \<open>An action is an object with an optional \<^verbatim>\<open>type\<close>; \<^verbatim>\<open>{}\<close> has none.\<close>

record 'p action =
  type :: "string option"
  payload :: "'p option"

definition emptyAction :: "'p action" where
  "emptyAction = \<lparr>type = None, payload = None\<rparr>"

text \<open>\<^verbatim>\<open>options = {}\<close> by default: \<^verbatim>\<open>resetTypes\<close> may be absent.\<close>

record options =
  resetTypes :: "string list option"

type_synonym ('d, 'p) reducer = "'d val \<Rightarrow> 'p action \<Rightarrow> 'd val"

text \<open>
  The state of the merged-present variant is \<^verbatim>\<open>{ past, present, future }\<close>; the
  buffered variant has the additional slot \<^verbatim>\<open>buffer\<close>.
\<close>

record 'd HistoryState =
  past :: "'d val list"
  present :: "'d val"
  future :: "'d val list"

record 'd BufferedState = "'d HistoryState" +
  buffer :: "'d val"

subsection \<open>Object identity\<close>

text \<open>
  History state objects are compared by reference by the consumers of the reducer. The
  objects live in a store; a reference is the position of the object in the store, and
  an object literal \<^verbatim>\<open>{ ... }\<close> allocates a new object at the end of the store. The
  reducers never mutate an object.
\<close>

type_synonym ref = nat

definition alloc :: "'o list \<Rightarrow> 'o \<Rightarrow> 'o list \<times> ref" where
  "alloc h obj = (h @ [obj], length h)"

definition deref :: "'o list \<Rightarrow> ref \<Rightarrow> 'o option" where
  "deref h r = (if r < length h then Some (h ! r) else None)"

subsection \<open>Array primitives of JavaScript\<close>

text \<open>\<^verbatim>\<open>xs[ i ]\<close>: \<^verbatim>\<open>undefined\<close> outside the array.\<close>

definition index :: "'d val list \<Rightarrow> int \<Rightarrow> 'd val" where
  "index xs i = (if 0 \<le> i \<and> i < int (length xs) then xs ! nat i else Undefined)"

text \<open>
  \<^verbatim>\<open>xs.slice( begin, end )\<close>: a negative bound counts from the end of the array, both
  bounds are clamped to the array, and an absent \<^verbatim>\<open>end\<close> is the length.
\<close>

definition slice :: "'a list \<Rightarrow> int \<Rightarrow> int option \<Rightarrow> 'a list" where
  "slice xs b e =
     (let len = int (length xs);
          k = (if b < 0 then max (len + b) 0 else min b len);
          final = (case e of None \<Rightarrow> len
                   | Some e' \<Rightarrow> if e' < 0 then max (len + e') 0 else min e' len)
      in take (nat (final - k)) (drop (nat k) xs))"

text \<open>
  lodash's \<^verbatim>\<open>includes( collection, value )\<close> on an array of strings: false for an absent
  collection, and an absent value is no member of an array of strings.
\<close>

fun includes_lodash :: "string list option \<Rightarrow> string option \<Rightarrow> bool" where
  "includes_lodash None v = False"
| "includes_lodash (Some xs) None = False"
| "includes_lodash (Some xs) (Some t) = (t \<in> set xs)"

section \<open>The merged-present variant of withHistory\<close>

text \<open>
  \<^verbatim>\<open>withHistory( reducer, options )\<close> first builds \<^verbatim>\<open>initialState\<close>, with one call of
  the base reducer, and returns the enhanced reducer, a closure over the reference of
  that object.
\<close>

definition initialState :: "('d, 'p) reducer \<Rightarrow> 'd HistoryState" where
  "initialState reducer =
     (let initialPresent = reducer Undefined emptyAction
      in \<lparr>past = [initialPresent], present = initialPresent, future = []\<rparr>)"

text \<open>
  The enhanced reducer. \<open>initial\<close> is the reference of \<^verbatim>\<open>initialState\<close> held by the
  closure; \<open>state = None\<close> is the call with \<^verbatim>\<open>undefined\<close>, which takes the default.
  \<^verbatim>\<open>return state\<close> gives the reference back with the store as it was; every other
  return allocates. The result is \<open>None\<close> only for a reference that is no object of the
  store, which no JavaScript program can hold.
\<close>

definition withHistory ::
  "('d, 'p) reducer \<Rightarrow> options \<Rightarrow> ref \<Rightarrow> 'd HistoryState list \<Rightarrow> ref option \<Rightarrow> 'p action
     \<Rightarrow> ('d HistoryState list \<times> ref) option" where
  "withHistory reducer opts initial h state0 action =
     (let state = (case state0 of None \<Rightarrow> initial | Some r \<Rightarrow> r) in
      case deref h state of
        None \<Rightarrow> None
      | Some s \<Rightarrow> Some
         (let past = past s; present = present s; future = future s in
          if type action = Some ''UNDO'' then
            (if index past (int (length past) - 1) \<noteq> present then
               alloc h \<lparr>past = past,
                        present = index past (int (length past) - 1),
                        future = present # future\<rparr>
             else if length past < 2 then (h, state)
             else
               alloc h \<lparr>past = slice past 0 (Some (int (length past) - 1)),
                        present = index past (int (length past) - 2),
                        future = present # future\<rparr>)
          else if type action = Some ''REDO'' then
            (if length future = 0 then (h, state)
             else
               alloc h \<lparr>past = past @ [index future 0],
                        present = index future 0,
                        future = slice future 1 None\<rparr>)
          else if type action = Some ''CREATE_UNDO_LEVEL'' then
            (if index past (int (length past) - 1) = present then (h, state)
             else alloc h \<lparr>past = past @ [present], present = present, future = []\<rparr>)
          else
            (let nextPresent = reducer present action in
             if includes_lodash (resetTypes opts) (type action) then
               alloc h \<lparr>past = [nextPresent], present = nextPresent, future = []\<rparr>
             else if present = nextPresent then (h, state)
             else alloc h \<lparr>past = past, present = nextPresent, future = future\<rparr>)))"

section \<open>The buffered variant of withHistory\<close>

text \<open>
  The earlier variant keeps the provisional edits in \<^verbatim>\<open>buffer\<close>, and \<^verbatim>\<open>past\<close> starts
  empty. \<^verbatim>\<open>initialState\<close> calls \<^verbatim>\<open>reducer( undefined, {} )\<close> twice, once for \<^verbatim>\<open>present\<close>
  and once for \<^verbatim>\<open>buffer\<close>. A base reducer may build its default state anew at each call,
  as the counter of the tests does (\<^verbatim>\<open>state = { count: 0 }\<close>), and then the two slots hold
  two objects that \<^verbatim>\<open>===\<close> tells apart. The results of the two calls are therefore the two
  arguments \<open>initialPresent\<close> (line 19) and \<open>initialBuffer\<close> (line 20), which need not
  be equal.
\<close>

definition initialState_buffered :: "'d val \<Rightarrow> 'd val \<Rightarrow> 'd BufferedState" where
  "initialState_buffered initialPresent initialBuffer =
     \<lparr>past = [], present = initialPresent, future = [], buffer = initialBuffer\<rparr>"

definition withHistory_buffered ::
  "('d, 'p) reducer \<Rightarrow> options \<Rightarrow> ref \<Rightarrow> 'd BufferedState list \<Rightarrow> ref option \<Rightarrow> 'p action
     \<Rightarrow> ('d BufferedState list \<times> ref) option" where
  "withHistory_buffered reducer opts initial h state0 action =
     (let state = (case state0 of None \<Rightarrow> initial | Some r \<Rightarrow> r) in
      case deref h state of
        None \<Rightarrow> None
      | Some s \<Rightarrow> Some
         (let past = past s; present = present s; buffer = buffer s; future = future s in
          if type action = Some ''UNDO'' then
            (if present \<noteq> buffer then
               alloc h \<lparr>past = slice past 0 (Some (int (length past) - 1)),
                        present = present,
                        future = buffer # future,
                        buffer = present\<rparr>
             else if length past = 0 then (h, state)
             else
               alloc h \<lparr>past = slice past 0 (Some (int (length past) - 1)),
                        present = index past (int (length past) - 1),
                        future = present # future,
                        buffer = index past (int (length past) - 1)\<rparr>)
          else if type action = Some ''REDO'' then
            (if length future = 0 then (h, state)
             else
               alloc h \<lparr>past = past @ [present],
                        present = index future 0,
                        future = slice future 1 None,
                        buffer = index future 0\<rparr>)
          else if type action = Some ''CREATE_UNDO_LEVEL'' then
            (if present = buffer then (h, state)
             else alloc h \<lparr>past = past @ [present], present = buffer, future = [],
                           buffer = buffer\<rparr>)
          else
            (let nextBuffer = reducer buffer action in
             if includes_lodash (resetTypes opts) (type action) then
               alloc h \<lparr>past = [], present = nextBuffer, future = [], buffer = nextBuffer\<rparr>
             else if buffer = nextBuffer then (h, state)
             else alloc h \<lparr>past = past, present = present, future = future,
                           buffer = nextBuffer\<rparr>)))"

section \<open>Dispatching a sequence of actions\<close>

text \<open>
  The caller threads the state through the reducer, one action at a time
  (\<^verbatim>\<open>state = reducer( state, action )\<close>), starting from \<^verbatim>\<open>undefined\<close>.
\<close>

fun dispatch ::
  "('o list \<Rightarrow> ref option \<Rightarrow> 'a \<Rightarrow> ('o list \<times> ref) option) \<Rightarrow> 'o list \<Rightarrow> ref option \<Rightarrow> 'a list
     \<Rightarrow> ('o list \<times> ref option) option" where
  "dispatch r h state [] = Some (h, state)"
| "dispatch r h state (a # as) =
     (case r h state a of
        None \<Rightarrow> None
      | Some (h', state') \<Rightarrow> dispatch r h' (Some state') as)"

text \<open>The object a state reference stands for, if any.\<close>

definition current :: "'o list \<times> ref option \<Rightarrow> 'o option" where
  "current hs = (case snd hs of None \<Rightarrow> None | Some r \<Rightarrow> deref (fst hs) r)"

text \<open>The state object held after dispatching a sequence of actions from \<^verbatim>\<open>undefined\<close>.\<close>

definition final ::
  "('o list \<Rightarrow> ref option \<Rightarrow> 'a \<Rightarrow> ('o list \<times> ref) option) \<Rightarrow> 'o list \<Rightarrow> 'a list \<Rightarrow> 'o option" where
  "final r h as = (case dispatch r h None as of None \<Rightarrow> None | Some hs \<Rightarrow> current hs)"

text \<open>
  The correspondence between a state of the buffered variant and a state of the
  merged-present variant under which the specification calls the two variants
  equivalent: the merged \<^verbatim>\<open>past\<close> is the buffered \<^verbatim>\<open>past\<close> followed by the buffered
  \<^verbatim>\<open>present\<close>, the merged \<^verbatim>\<open>present\<close> is the buffered \<^verbatim>\<open>buffer\<close>, and the futures agree.
\<close>

definition corresponds :: "'d BufferedState \<Rightarrow> 'd HistoryState \<Rightarrow> bool" where
  "corresponds buffered merged =
     (past merged = past buffered @ [present buffered] \<and>
      present merged = buffer buffered \<and>
      future merged = future buffered)"

section \<open>Selectors\<close>

text \<open>
  \<^verbatim>\<open>src/editor/store/selectors.js\<close>: the global application state holds the history
  state under \<^verbatim>\<open>editor\<close>.
\<close>

record 'd GlobalState =
  editor :: "'d HistoryState"

definition hasEditorUndo :: "('d, 'z) GlobalState_scheme \<Rightarrow> bool" where
  "hasEditorUndo state = (length (past (editor state)) > 0)"

definition hasEditorRedo :: "('d, 'z) GlobalState_scheme \<Rightarrow> bool" where
  "hasEditorRedo state = (length (future (editor state)) > 0)"

section \<open>The base reducer of the tests\<close>

text \<open>
  \<^verbatim>\<open>src/editor/utils/with-history/test/index.js\<close> wraps a counter: the document
  \<^verbatim>\<open>{ count: n }\<close> is \<open>Doc n\<close>, the state defaults to \<^verbatim>\<open>{ count: 0 }\<close>, \<^verbatim>\<open>INCREMENT\<close>
  returns a new document and every other action returns the state it was given.
\<close>

definition counter :: "(nat, unit) reducer" where
  "counter state0 a =
     (let state = (case state0 of Undefined \<Rightarrow> Doc 0 | Doc n \<Rightarrow> Doc n) in
      if type a = Some ''INCREMENT'' then
        (case state of Doc n \<Rightarrow> Doc (n + 1) | Undefined \<Rightarrow> Undefined)
      else state)"

definition act :: "string \<Rightarrow> unit action" where
  "act t = \<lparr>type = Some t, payload = None\<rparr>"

section \<open>Array facts\<close>

lemma index_last: "xs \<noteq> [] \<Longrightarrow> index xs (int (length xs) - 1) = last xs"
  by (cases xs rule: rev_cases) (simp_all add: index_def nth_append)

lemma index_snoc: "index (xs @ [x]) (int (length (xs @ [x])) - 1) = x"
  by (simp add: index_def nth_append)

lemma slice_tail: "slice xs 1 None = tl xs"
  by (cases xs) (simp_all add: slice_def Let_def)

lemma slice_butlast: "slice xs 0 (Some (int (length xs) - 1)) = butlast xs"
  by (cases xs rule: rev_cases) (simp_all add: slice_def Let_def)

lemma deref_snoc_new: "deref (h @ [obj]) (length h) = Some obj"
  by (simp add: deref_def)

lemma deref_valid: "deref h r = Some s \<Longrightarrow> r < length h"
  by (simp add: deref_def split: if_splits)

lemma index_slice_butlast:
  "2 \<le> length xs \<Longrightarrow>
   index (slice xs 0 (Some (int (length xs) - 1)))
     (int (length (slice xs 0 (Some (int (length xs) - 1)))) - 1)
   = index xs (int (length xs) - 2)"
proof -
  assume len: "2 \<le> length xs"
  then obtain ys y where xs: "xs = ys @ [y]" by (cases xs rule: rev_cases) auto
  with len have "ys \<noteq> []" by auto
  then obtain zs z where ys: "ys = zs @ [z]" by (cases ys rule: rev_cases) auto
  have "butlast xs = zs @ [z]"
    by (simp add: xs ys butlast_append)
  then have sl: "slice xs 0 (Some (int (length xs) - 1)) = zs @ [z]"
    by (simp only: slice_butlast)
  have "index (zs @ [z]) (int (length (zs @ [z])) - 1) = z"
    by (rule index_snoc)
  moreover have "index xs (int (length xs) - 2) = z"
    by (simp add: index_def nth_append xs ys)
  ultimately show ?thesis
    by (simp only: sl)
qed

section \<open>Properties of the merged-present reducer\<close>

text \<open>
  Claim C4. Undo of a provisional edit: when \<^verbatim>\<open>present\<close> is not the last element of
  \<^verbatim>\<open>past\<close>, \<^verbatim>\<open>UNDO\<close> returns a new state whose \<^verbatim>\<open>present\<close> is that last element,
  whose \<^verbatim>\<open>future\<close> is the old \<^verbatim>\<open>present\<close> in front of the old \<^verbatim>\<open>future\<close>, and whose
  \<^verbatim>\<open>past\<close> is the past it was given. (\<^verbatim>\<open>past[ past.length - 1 ]\<close> is the last element
  of a non-empty \<^verbatim>\<open>past\<close>.)
\<close>

theorem undo_provisional:
  assumes "deref h st = Some s" and "type action = Some ''UNDO''"
    and "index (past s) (int (length (past s)) - 1) \<noteq> present s"
  shows "withHistory reducer opts i h (Some st) action =
           Some (h @ [\<lparr>past = past s,
                       present = index (past s) (int (length (past s)) - 1),
                       future = present s # future s\<rparr>], length h)
         \<and> (past s \<noteq> [] \<longrightarrow> index (past s) (int (length (past s)) - 1) = last (past s))"
  using assms by (simp add: withHistory_def Let_def alloc_def index_last)

theorem undo_provisional_witness:
  "deref [\<lparr>past = [Doc 0], present = Doc (1::nat), future = []\<rparr>] 0
     = Some \<lparr>past = [Doc 0], present = Doc 1, future = []\<rparr> \<and>
   type (act ''UNDO'') = Some ''UNDO'' \<and>
   index [Doc 0] (int (length [Doc (0::nat)]) - 1) \<noteq> Doc (1::nat) \<and>
   withHistory counter \<lparr>resetTypes = None\<rparr> 0
       [\<lparr>past = [Doc 0], present = Doc 1, future = []\<rparr>] (Some 0) (act ''UNDO'')
     = Some ([\<lparr>past = [Doc 0], present = Doc 1, future = []\<rparr>,
              \<lparr>past = [Doc 0], present = Doc 0, future = [Doc 1]\<rparr>], 1)"
  using undo_provisional [where h = "[\<lparr>past = [Doc 0], present = Doc (1::nat), future = []\<rparr>]"
      and st = 0 and s = "\<lparr>past = [Doc 0], present = Doc 1, future = []\<rparr>"
      and action = "act ''UNDO''" and reducer = counter and opts = "\<lparr>resetTypes = None\<rparr>"
      and i = 0]
  by (simp add: deref_def act_def index_def)

text \<open>
  Claim C7. No-op edit stability: for an action that is none of \<^verbatim>\<open>UNDO\<close>, \<^verbatim>\<open>REDO\<close>,
  \<^verbatim>\<open>CREATE_UNDO_LEVEL\<close> and no member of \<^verbatim>\<open>resetTypes\<close>, if the base reducer returns
  the \<^verbatim>\<open>present\<close> it was given, the enhanced reducer returns the very state object it
  was given: the same reference, and nothing is allocated.
\<close>

theorem noop_edit_stable:
  assumes "deref h st = Some s"
    and "type action \<noteq> Some ''UNDO''" and "type action \<noteq> Some ''REDO''"
    and "type action \<noteq> Some ''CREATE_UNDO_LEVEL''"
    and "\<not> includes_lodash (resetTypes opts) (type action)"
    and "reducer (present s) action = present s"
  shows "withHistory reducer opts i h (Some st) action = Some (h, st)"
  using assms by (simp add: withHistory_def Let_def)

theorem noop_edit_stable_witness:
  "deref [\<lparr>past = [Doc 0], present = Doc (1::nat), future = []\<rparr>] 0
     = Some \<lparr>past = [Doc 0], present = Doc 1, future = []\<rparr> \<and>
   type (act ''SELECT'') \<noteq> Some ''UNDO'' \<and> type (act ''SELECT'') \<noteq> Some ''REDO'' \<and>
   type (act ''SELECT'') \<noteq> Some ''CREATE_UNDO_LEVEL'' \<and>
   \<not> includes_lodash (resetTypes \<lparr>resetTypes = Some [''RESET_HISTORY'']\<rparr>) (type (act ''SELECT'')) \<and>
   counter (Doc 1) (act ''SELECT'') = Doc 1 \<and>
   withHistory counter \<lparr>resetTypes = Some [''RESET_HISTORY'']\<rparr> 0
       [\<lparr>past = [Doc 0], present = Doc 1, future = []\<rparr>] (Some 0) (act ''SELECT'')
     = Some ([\<lparr>past = [Doc 0], present = Doc 1, future = []\<rparr>], 0)"
  using noop_edit_stable [where h = "[\<lparr>past = [Doc 0], present = Doc (1::nat), future = []\<rparr>]"
      and st = 0 and s = "\<lparr>past = [Doc 0], present = Doc 1, future = []\<rparr>"
      and action = "act ''SELECT''" and reducer = counter
      and opts = "\<lparr>resetTypes = Some [''RESET_HISTORY'']\<rparr>" and i = 0]
  by (simp add: deref_def act_def counter_def)

text \<open>
  Claim C8. Undo and redo at the boundary are no-ops: \<^verbatim>\<open>UNDO\<close> with fewer than two
  elements in \<^verbatim>\<open>past\<close> and \<^verbatim>\<open>present\<close> equal to the last element of \<^verbatim>\<open>past\<close>, and
  \<^verbatim>\<open>REDO\<close> with an empty \<^verbatim>\<open>future\<close>, return the very state object they were given.
\<close>

theorem boundary_undo_redo_noop:
  assumes "deref h st = Some s"
  shows "(type action = Some ''UNDO'' \<and> length (past s) < 2 \<and>
          index (past s) (int (length (past s)) - 1) = present s
            \<longrightarrow> withHistory reducer opts i h (Some st) action = Some (h, st)) \<and>
         (type action = Some ''REDO'' \<and> length (future s) = 0
            \<longrightarrow> withHistory reducer opts i h (Some st) action = Some (h, st))"
  using assms by (simp add: withHistory_def Let_def)

theorem boundary_undo_redo_noop_witness:
  "deref [\<lparr>past = [Doc 0], present = Doc (0::nat), future = []\<rparr>] 0
     = Some \<lparr>past = [Doc 0], present = Doc 0, future = []\<rparr> \<and>
   length [Doc (0::nat)] < 2 \<and> index [Doc 0] (int (length [Doc (0::nat)]) - 1) = Doc 0 \<and>
   withHistory counter \<lparr>resetTypes = None\<rparr> 0
       [\<lparr>past = [Doc 0], present = Doc 0, future = []\<rparr>] (Some 0) (act ''UNDO'')
     = Some ([\<lparr>past = [Doc 0], present = Doc 0, future = []\<rparr>], 0) \<and>
   withHistory counter \<lparr>resetTypes = None\<rparr> 0
       [\<lparr>past = [Doc 0], present = Doc 0, future = []\<rparr>] (Some 0) (act ''REDO'')
     = Some ([\<lparr>past = [Doc 0], present = Doc 0, future = []\<rparr>], 0)"
  using
    boundary_undo_redo_noop [where h = "[\<lparr>past = [Doc 0], present = Doc (0::nat), future = []\<rparr>]"
      and st = 0 and s = "\<lparr>past = [Doc 0], present = Doc 0, future = []\<rparr>"
      and action = "act ''UNDO''" and reducer = counter and opts = "\<lparr>resetTypes = None\<rparr>"
      and i = 0]
    boundary_undo_redo_noop [where h = "[\<lparr>past = [Doc 0], present = Doc (0::nat), future = []\<rparr>]"
      and st = 0 and s = "\<lparr>past = [Doc 0], present = Doc 0, future = []\<rparr>"
      and action = "act ''REDO''" and reducer = counter and opts = "\<lparr>resetTypes = None\<rparr>"
      and i = 0]
  by (simp add: deref_def act_def index_def)

text \<open>
  Claim C3, as stated: every action whose type is a member of \<^verbatim>\<open>resetTypes\<close> collapses
  the history to \<^verbatim>\<open>{ past: [ nextPresent ], present: nextPresent, future: [] }\<close>. The
  \<^verbatim>\<open>switch\<close> on the three control types returns before \<^verbatim>\<open>resetTypes\<close> is looked at: with
  \<^verbatim>\<open>resetTypes = [ 'UNDO' ]\<close>, \<^verbatim>\<open>UNDO\<close> on the state reached by \<^verbatim>\<open>INCREMENT\<close>,
  \<^verbatim>\<open>CREATE_UNDO_LEVEL\<close> undoes one level and keeps the history.
\<close>

theorem reset_not_unconditional_counterexample:
  "includes_lodash (resetTypes \<lparr>resetTypes = Some [''UNDO'']\<rparr>) (type (act ''UNDO'')) \<and>
   withHistory counter \<lparr>resetTypes = Some [''UNDO'']\<rparr> 0
       [\<lparr>past = [Doc 0, Doc 1], present = Doc (1::nat), future = []\<rparr>] (Some 0) (act ''UNDO'')
     = Some ([\<lparr>past = [Doc 0, Doc 1], present = Doc 1, future = []\<rparr>,
              \<lparr>past = [Doc 0], present = Doc 0, future = [Doc 1]\<rparr>], 1) \<and>
   \<lparr>past = [Doc 0], present = Doc (0::nat), future = [Doc 1]\<rparr>
     \<noteq> \<lparr>past = [counter (Doc 1) (act ''UNDO'')],
          present = counter (Doc 1) (act ''UNDO''), future = []\<rparr>"
  by (simp add: withHistory_def deref_def act_def index_def slice_def alloc_def Let_def counter_def)

text \<open>
  Claim C3, amended: for every action whose type is a member of \<^verbatim>\<open>resetTypes\<close> and is
  none of \<^verbatim>\<open>UNDO\<close>, \<^verbatim>\<open>REDO\<close>, \<^verbatim>\<open>CREATE_UNDO_LEVEL\<close>, the reducer returns a new state
  \<^verbatim>\<open>{ past: [ nextPresent ], present: nextPresent, future: [] }\<close> with
  \<^verbatim>\<open>nextPresent = reducer( present, action )\<close>, whatever the history was and also when
  \<^verbatim>\<open>nextPresent\<close> is the old \<^verbatim>\<open>present\<close>.
\<close>

theorem reset_clears_history:
  assumes "deref h st = Some s"
    and "includes_lodash (resetTypes opts) (type action)"
    and "type action \<noteq> Some ''UNDO''" and "type action \<noteq> Some ''REDO''"
    and "type action \<noteq> Some ''CREATE_UNDO_LEVEL''"
  shows "withHistory reducer opts i h (Some st) action =
           Some (h @ [\<lparr>past = [reducer (present s) action],
                       present = reducer (present s) action,
                       future = []\<rparr>], length h)"
  using assms by (simp add: withHistory_def Let_def alloc_def)

theorem reset_clears_history_witness:
  "deref [\<lparr>past = [Doc 0, Doc 1], present = Doc (1::nat), future = [Doc 2]\<rparr>] 0
     = Some \<lparr>past = [Doc 0, Doc 1], present = Doc 1, future = [Doc 2]\<rparr> \<and>
   includes_lodash (resetTypes \<lparr>resetTypes = Some [''RESET_HISTORY'']\<rparr>)
     (type (act ''RESET_HISTORY'')) \<and>
   type (act ''RESET_HISTORY'') \<noteq> Some ''UNDO'' \<and>
   type (act ''RESET_HISTORY'') \<noteq> Some ''REDO'' \<and>
   type (act ''RESET_HISTORY'') \<noteq> Some ''CREATE_UNDO_LEVEL'' \<and>
   withHistory counter \<lparr>resetTypes = Some [''RESET_HISTORY'']\<rparr> 0
       [\<lparr>past = [Doc 0, Doc 1], present = Doc 1, future = [Doc 2]\<rparr>] (Some 0)
       (act ''RESET_HISTORY'')
     = Some ([\<lparr>past = [Doc 0, Doc 1], present = Doc 1, future = [Doc 2]\<rparr>,
              \<lparr>past = [Doc 1], present = Doc 1, future = []\<rparr>], 1)"
  using reset_clears_history
      [where h = "[\<lparr>past = [Doc 0, Doc 1], present = Doc (1::nat), future = [Doc 2]\<rparr>]"
      and st = 0 and s = "\<lparr>past = [Doc 0, Doc 1], present = Doc 1, future = [Doc 2]\<rparr>"
      and action = "act ''RESET_HISTORY''" and reducer = counter
      and opts = "\<lparr>resetTypes = Some [''RESET_HISTORY'']\<rparr>" and i = 0]
  by (simp add: deref_def act_def counter_def)

text \<open>
  Claim C6. \<^verbatim>\<open>CREATE_UNDO_LEVEL\<close> is idempotent: dispatched on the state a first
  \<^verbatim>\<open>CREATE_UNDO_LEVEL\<close> returned, it returns that very state object; and when \<^verbatim>\<open>present\<close>
  is already the last element of \<^verbatim>\<open>past\<close>, the first dispatch returns the state object it
  was given.
\<close>

theorem create_undo_level_idempotent:
  assumes "deref h st = Some s" and "type action = Some ''CREATE_UNDO_LEVEL''"
  shows "\<exists>h1 r1. withHistory reducer opts i h (Some st) action = Some (h1, r1) \<and>
           withHistory reducer opts i h1 (Some r1) action = Some (h1, r1) \<and>
           (index (past s) (int (length (past s)) - 1) = present s \<longrightarrow> h1 = h \<and> r1 = st)"
proof (cases "index (past s) (int (length (past s)) - 1) = present s")
  case True
  with assms have "withHistory reducer opts i h (Some st) action = Some (h, st)"
    by (simp add: withHistory_def Let_def)
  then show ?thesis by simp
next
  case False
  let ?new = "\<lparr>past = past s @ [present s], present = present s, future = []\<rparr>"
  from False assms have 1: "withHistory reducer opts i h (Some st) action =
      Some (h @ [?new], length h)"
    by (simp add: withHistory_def Let_def alloc_def)
  have "deref (h @ [?new]) (length h) = Some ?new" by (rule deref_snoc_new)
  with assms(2) have 2: "withHistory reducer opts i (h @ [?new]) (Some (length h)) action =
      Some (h @ [?new], length h)"
    by (simp add: withHistory_def Let_def index_def nth_append)
  from 1 2 False show ?thesis by simp
qed

theorem create_undo_level_idempotent_witness:
  "deref [\<lparr>past = [Doc 0], present = Doc (1::nat), future = [Doc 2]\<rparr>] 0
     = Some \<lparr>past = [Doc 0], present = Doc 1, future = [Doc 2]\<rparr> \<and>
   type (act ''CREATE_UNDO_LEVEL'') = Some ''CREATE_UNDO_LEVEL'' \<and>
   withHistory counter \<lparr>resetTypes = None\<rparr> 0
       [\<lparr>past = [Doc 0], present = Doc 1, future = [Doc 2]\<rparr>] (Some 0)
       (act ''CREATE_UNDO_LEVEL'')
     = Some ([\<lparr>past = [Doc 0], present = Doc 1, future = [Doc 2]\<rparr>,
              \<lparr>past = [Doc 0, Doc 1], present = Doc 1, future = []\<rparr>], 1) \<and>
   withHistory counter \<lparr>resetTypes = None\<rparr> 0
       [\<lparr>past = [Doc 0], present = Doc 1, future = [Doc 2]\<rparr>,
        \<lparr>past = [Doc 0, Doc 1], present = Doc 1, future = []\<rparr>] (Some 1)
       (act ''CREATE_UNDO_LEVEL'')
     = Some ([\<lparr>past = [Doc 0], present = Doc 1, future = [Doc 2]\<rparr>,
              \<lparr>past = [Doc 0, Doc 1], present = Doc 1, future = []\<rparr>], 1)"
proof -
  let ?s = "\<lparr>past = [Doc 0], present = Doc (1::nat), future = [Doc 2]\<rparr>"
  let ?t = "\<lparr>past = [Doc 0, Doc 1], present = Doc (1::nat), future = []\<rparr>"
  have d: "deref [?s] 0 = Some ?s" by (simp add: deref_def)
  have a: "type (act ''CREATE_UNDO_LEVEL'') = Some ''CREATE_UNDO_LEVEL''" by (simp add: act_def)
  have first: "withHistory counter \<lparr>resetTypes = None\<rparr> 0 [?s] (Some 0) (act ''CREATE_UNDO_LEVEL'')
      = Some ([?s, ?t], 1)"
    by (simp add: withHistory_def deref_def act_def index_def alloc_def Let_def)
  from create_undo_level_idempotent [OF d a, of counter "\<lparr>resetTypes = None\<rparr>" 0]
  obtain h1 r1 where
    w1: "withHistory counter \<lparr>resetTypes = None\<rparr> 0 [?s] (Some 0) (act ''CREATE_UNDO_LEVEL'') = Some (h1, r1)"
    and w2: "withHistory counter \<lparr>resetTypes = None\<rparr> 0 h1 (Some r1) (act ''CREATE_UNDO_LEVEL'') = Some (h1, r1)"
    by blast
  from w1 first have "h1 = [?s, ?t]" and "r1 = 1" by simp_all
  with w2 have "withHistory counter \<lparr>resetTypes = None\<rparr> 0 [?s, ?t] (Some 1) (act ''CREATE_UNDO_LEVEL'')
      = Some ([?s, ?t], 1)"
    by blast
  with d a first show ?thesis by simp
qed

text \<open>
  Claim C10, as stated: \<^verbatim>\<open>UNDO\<close>, \<^verbatim>\<open>CREATE_UNDO_LEVEL\<close> and every action whose type is in
  \<^verbatim>\<open>resetTypes\<close> yield a state whose \<^verbatim>\<open>present\<close> is the last element of \<^verbatim>\<open>past\<close>. With
  \<^verbatim>\<open>resetTypes = [ 'REDO' ]\<close>, \<^verbatim>\<open>REDO\<close> on a provisional edit with an empty \<^verbatim>\<open>future\<close>
  is answered by the \<^verbatim>\<open>REDO\<close> case, which returns the state as it was.
\<close>

theorem reset_type_redo_counterexample:
  "includes_lodash (resetTypes \<lparr>resetTypes = Some [''REDO'']\<rparr>) (type (act ''REDO'')) \<and>
   withHistory counter \<lparr>resetTypes = Some [''REDO'']\<rparr> 0
       [\<lparr>past = [Doc 0], present = Doc (1::nat), future = []\<rparr>] (Some 0) (act ''REDO'')
     = Some ([\<lparr>past = [Doc 0], present = Doc 1, future = []\<rparr>], 0) \<and>
   deref [\<lparr>past = [Doc 0], present = Doc (1::nat), future = []\<rparr>] 0
     = Some \<lparr>past = [Doc 0], present = Doc 1, future = []\<rparr> \<and>
   present \<lparr>past = [Doc 0], present = Doc (1::nat), future = []\<rparr>
     \<noteq> index (past \<lparr>past = [Doc 0], present = Doc (1::nat), future = []\<rparr>)
         (int (length (past \<lparr>past = [Doc 0], present = Doc (1::nat), future = []\<rparr>)) - 1)"
  by (simp add: withHistory_def deref_def act_def index_def Let_def)

text \<open>
  Claim C10, amended: \<^verbatim>\<open>UNDO\<close>, \<^verbatim>\<open>CREATE_UNDO_LEVEL\<close>, every action whose type is in
  \<^verbatim>\<open>resetTypes\<close> and is not \<^verbatim>\<open>REDO\<close>, and \<^verbatim>\<open>REDO\<close> with a non-empty \<^verbatim>\<open>future\<close> yield a
  state whose \<^verbatim>\<open>present\<close> is \<^verbatim>\<open>past[ past.length - 1 ]\<close>.
\<close>

theorem control_actions_commit:
  assumes "deref h st = Some s"
    and "type action = Some ''UNDO'' \<or> type action = Some ''CREATE_UNDO_LEVEL'' \<or>
         (includes_lodash (resetTypes opts) (type action) \<and> type action \<noteq> Some ''REDO'') \<or>
         (type action = Some ''REDO'' \<and> future s \<noteq> [])"
  shows "\<exists>h' r' s'. withHistory reducer opts i h (Some st) action = Some (h', r') \<and>
           deref h' r' = Some s' \<and>
           present s' = index (past s') (int (length (past s')) - 1)"
proof -
  consider (undo) "type action = Some ''UNDO''"
    | (cul) "type action = Some ''CREATE_UNDO_LEVEL''"
    | (redo) "type action = Some ''REDO''" "future s \<noteq> []"
    | (reset) "includes_lodash (resetTypes opts) (type action)"
        "type action \<noteq> Some ''UNDO''" "type action \<noteq> Some ''REDO''"
        "type action \<noteq> Some ''CREATE_UNDO_LEVEL''"
    using assms(2) by blast
  then show ?thesis
  proof cases
    case undo
    show ?thesis
    proof (cases "index (past s) (int (length (past s)) - 1) = present s")
      case False
      with undo assms(1) show ?thesis
        by (simp add: withHistory_def Let_def alloc_def deref_snoc_new)
    next
      case True
      show ?thesis
      proof (cases "length (past s) < 2")
        case short: True
        with True undo assms(1) show ?thesis
          by (simp add: withHistory_def Let_def)
      next
        case long: False
        then have "2 \<le> length (past s)" by simp
        from index_slice_butlast [OF this] True long undo assms(1) show ?thesis
          by (simp add: withHistory_def Let_def alloc_def deref_snoc_new)
      qed
    qed
  next
    case cul
    with assms(1) show ?thesis
      by (cases "index (past s) (int (length (past s)) - 1) = present s")
        (simp_all add: withHistory_def Let_def alloc_def deref_snoc_new index_def nth_append)
  next
    case redo
    with assms(1) show ?thesis
      by (simp add: withHistory_def Let_def alloc_def deref_snoc_new index_def nth_append)
  next
    case reset
    with assms(1) show ?thesis
      by (simp add: withHistory_def Let_def alloc_def deref_snoc_new index_def)
  qed
qed

theorem control_actions_commit_witness:
  "deref [\<lparr>past = [Doc 0], present = Doc (1::nat), future = [Doc 2]\<rparr>] 0
     = Some \<lparr>past = [Doc 0], present = Doc 1, future = [Doc 2]\<rparr> \<and>
   type (act ''REDO'') = Some ''REDO'' \<and>
   future \<lparr>past = [Doc 0], present = Doc (1::nat), future = [Doc 2]\<rparr> \<noteq> [] \<and>
   (\<exists>h' r' s'.
      withHistory counter \<lparr>resetTypes = None\<rparr> 0
          [\<lparr>past = [Doc 0], present = Doc 1, future = [Doc 2]\<rparr>] (Some 0) (act ''REDO'')
        = Some (h', r') \<and>
      deref h' r' = Some s' \<and>
      present s' = index (past s') (int (length (past s')) - 1))"
proof -
  let ?s = "\<lparr>past = [Doc 0], present = Doc (1::nat), future = [Doc 2]\<rparr>"
  have d: "deref [?s] 0 = Some ?s" by (simp add: deref_def)
  have a: "type (act ''REDO'') = Some ''REDO''" by (simp add: act_def)
  have f: "future ?s \<noteq> []" by simp
  from a f have c: "type (act ''REDO'') = Some ''UNDO'' \<or>
      type (act ''REDO'') = Some ''CREATE_UNDO_LEVEL'' \<or>
      (includes_lodash (resetTypes \<lparr>resetTypes = None\<rparr>) (type (act ''REDO'')) \<and>
       type (act ''REDO'') \<noteq> Some ''REDO'') \<or>
      (type (act ''REDO'') = Some ''REDO'' \<and> future ?s \<noteq> [])"
    by blast
  from control_actions_commit [OF d c, of counter 0] d a f show ?thesis
    by blast
qed

text \<open>
  Claim C1, as stated: from a state without provisional edit, \<^verbatim>\<open>UNDO\<close> followed by
  \<^verbatim>\<open>REDO\<close> gives back the very state object. Two runs of the counter of the tests show
  otherwise. After \<^verbatim>\<open>INCREMENT\<close>, \<^verbatim>\<open>UNDO\<close> the state has no provisional edit, one
  element in \<^verbatim>\<open>past\<close> and a non-empty \<^verbatim>\<open>future\<close>: \<^verbatim>\<open>UNDO\<close> is a no-op there and \<^verbatim>\<open>REDO\<close>
  moves forward, to a state with other contents. With two elements in \<^verbatim>\<open>past\<close>, the pair
  allocates two objects: the state it ends in has the contents of the first one at another
  reference.
\<close>

theorem undo_redo_not_identity_counterexample:
  "final (withHistory counter \<lparr>resetTypes = None\<rparr> 0) [initialState counter]
       [act ''INCREMENT'', act ''UNDO'']
     = Some \<lparr>past = [Doc 0], present = Doc 0, future = [Doc 1]\<rparr> \<and>
   final (withHistory counter \<lparr>resetTypes = None\<rparr> 0) [initialState counter]
       [act ''INCREMENT'', act ''UNDO'', act ''UNDO'', act ''REDO'']
     = Some \<lparr>past = [Doc 0, Doc 1], present = Doc 1, future = []\<rparr> \<and>
   withHistory counter \<lparr>resetTypes = None\<rparr> 0
       [\<lparr>past = [Doc 0, Doc 1], present = Doc (1::nat), future = []\<rparr>] (Some 0) (act ''UNDO'')
     = Some ([\<lparr>past = [Doc 0, Doc 1], present = Doc 1, future = []\<rparr>,
              \<lparr>past = [Doc 0], present = Doc 0, future = [Doc 1]\<rparr>], 1) \<and>
   withHistory counter \<lparr>resetTypes = None\<rparr> 0
       [\<lparr>past = [Doc 0, Doc 1], present = Doc (1::nat), future = []\<rparr>,
        \<lparr>past = [Doc 0], present = Doc 0, future = [Doc 1]\<rparr>] (Some 1) (act ''REDO'')
     = Some ([\<lparr>past = [Doc 0, Doc 1], present = Doc 1, future = []\<rparr>,
              \<lparr>past = [Doc 0], present = Doc 0, future = [Doc 1]\<rparr>,
              \<lparr>past = [Doc 0, Doc 1], present = Doc 1, future = []\<rparr>], 2) \<and>
   (2::nat) \<noteq> 0"
  by (simp add: final_def current_def withHistory_def initialState_def emptyAction_def
      deref_def act_def index_def slice_def alloc_def Let_def counter_def)

text \<open>
  Claim C1, amended: from a state without provisional edit and with at least two
  elements in \<^verbatim>\<open>past\<close>, \<^verbatim>\<open>UNDO\<close> followed by \<^verbatim>\<open>REDO\<close> yields a newly allocated state object whose
  \<^verbatim>\<open>past\<close>, \<^verbatim>\<open>present\<close> and \<^verbatim>\<open>future\<close> are those of the state before the pair; with fewer
  than two elements in \<^verbatim>\<open>past\<close> and an empty \<^verbatim>\<open>future\<close>, both dispatches return the very
  state object they were given.
\<close>

theorem undo_redo_roundtrip:
  assumes "deref h st = Some s"
    and "type undo = Some ''UNDO''" and "type redo = Some ''REDO''"
    and "index (past s) (int (length (past s)) - 1) = present s"
  shows "(2 \<le> length (past s) \<longrightarrow>
            (\<exists>h1 r1 h2 r2.
               withHistory reducer opts i h (Some st) undo = Some (h1, r1) \<and>
               withHistory reducer opts i h1 (Some r1) redo = Some (h2, r2) \<and>
               deref h2 r2 = Some s \<and> r2 \<noteq> st \<and> length h \<le> r2)) \<and>
         (length (past s) < 2 \<and> future s = [] \<longrightarrow>
            withHistory reducer opts i h (Some st) undo = Some (h, st) \<and>
            withHistory reducer opts i h (Some st) redo = Some (h, st))"
proof (intro conjI impI)
  assume len: "2 \<le> length (past s)"
  let ?u = "\<lparr>past = slice (past s) 0 (Some (int (length (past s)) - 1)),
             present = index (past s) (int (length (past s)) - 2),
             future = present s # future s\<rparr>"
  from len have ne: "past s \<noteq> []" by auto
  from assms len have 1: "withHistory reducer opts i h (Some st) undo = Some (h @ [?u], length h)"
    by (simp add: withHistory_def Let_def alloc_def)
  have du: "deref (h @ [?u]) (length h) = Some ?u" by (rule deref_snoc_new)
  from ne assms(4) have "last (past s) = present s"
    by (simp add: index_last)
  with ne have "butlast (past s) @ [present s] = past s"
    using append_butlast_last_id [of "past s"] by simp
  then have restored: "\<lparr>past = slice (past s) 0 (Some (int (length (past s)) - 1)) @ [present s],
      present = present s, future = future s\<rparr> = s"
    by (simp add: slice_butlast)
  from du assms(2,3) have 2: "withHistory reducer opts i (h @ [?u]) (Some (length h)) redo =
      Some (h @ [?u] @ [s], length h + 1)"
    by (simp add: withHistory_def Let_def alloc_def index_def slice_tail restored)
  have 3: "deref (h @ [?u] @ [s]) (length h + 1) = Some s"
    by (simp add: deref_def nth_append)
  from assms(1) have "st < length h" by (rule deref_valid)
  then have 4: "length h + 1 \<noteq> st" by simp
  have 5: "length h \<le> length h + 1" by simp
  from 1 2 3 4 5 show "\<exists>h1 r1 h2 r2.
       withHistory reducer opts i h (Some st) undo = Some (h1, r1) \<and>
       withHistory reducer opts i h1 (Some r1) redo = Some (h2, r2) \<and>
       deref h2 r2 = Some s \<and> r2 \<noteq> st \<and> length h \<le> r2"
    by blast
next
  assume "length (past s) < 2 \<and> future s = []"
  with assms show "withHistory reducer opts i h (Some st) undo = Some (h, st)"
    by (simp add: withHistory_def Let_def)
next
  assume "length (past s) < 2 \<and> future s = []"
  with assms show "withHistory reducer opts i h (Some st) redo = Some (h, st)"
    by (simp add: withHistory_def Let_def)
qed

theorem undo_redo_roundtrip_witness:
  "deref [\<lparr>past = [Doc 0, Doc 1], present = Doc (1::nat), future = [Doc 2]\<rparr>] 0
     = Some \<lparr>past = [Doc 0, Doc 1], present = Doc 1, future = [Doc 2]\<rparr> \<and>
   index [Doc 0, Doc 1] (int (length [Doc 0, Doc (1::nat)]) - 1) = Doc (1::nat) \<and>
   2 \<le> length [Doc 0, Doc (1::nat)] \<and>
   (\<exists>h1 r1 h2 r2.
      withHistory counter \<lparr>resetTypes = None\<rparr> 0
          [\<lparr>past = [Doc 0, Doc 1], present = Doc 1, future = [Doc 2]\<rparr>] (Some 0) (act ''UNDO'')
        = Some (h1, r1) \<and>
      withHistory counter \<lparr>resetTypes = None\<rparr> 0 h1 (Some r1) (act ''REDO'') = Some (h2, r2) \<and>
      deref h2 r2 = Some \<lparr>past = [Doc 0, Doc 1], present = Doc 1, future = [Doc 2]\<rparr> \<and>
      r2 \<noteq> 0 \<and>
      length [\<lparr>past = [Doc 0, Doc 1], present = Doc (1::nat), future = [Doc 2]\<rparr>] \<le> r2)"
proof -
  let ?s = "\<lparr>past = [Doc 0, Doc 1], present = Doc (1::nat), future = [Doc 2]\<rparr>"
  have d: "deref [?s] 0 = Some ?s" by (simp add: deref_def)
  have u: "type (act ''UNDO'') = Some ''UNDO''" by (simp add: act_def)
  have r: "type (act ''REDO'') = Some ''REDO''" by (simp add: act_def)
  have e: "index (past ?s) (int (length (past ?s)) - 1) = present ?s" by (simp add: index_def)
  have l: "2 \<le> length (past ?s)" by simp
  from undo_redo_roundtrip [OF d u r e, of counter "\<lparr>resetTypes = None\<rparr>" 0] l
  have "\<exists>h1 r1 h2 r2.
      withHistory counter \<lparr>resetTypes = None\<rparr> 0 [?s] (Some 0) (act ''UNDO'') = Some (h1, r1) \<and>
      withHistory counter \<lparr>resetTypes = None\<rparr> 0 h1 (Some r1) (act ''REDO'') = Some (h2, r2) \<and>
      deref h2 r2 = Some ?s \<and> r2 \<noteq> 0 \<and> length [?s] \<le> r2"
    by blast
  with d e l show ?thesis by simp
qed

section \<open>Reachable states\<close>

text \<open>A call with \<^verbatim>\<open>undefined\<close> is a call with the \<^verbatim>\<open>initialState\<close> of the closure.\<close>

lemma withHistory_default:
  "withHistory reducer opts i h None action = withHistory reducer opts i h (Some i) action"
  by (simp add: withHistory_def)

lemma butlast_nonempty: "2 \<le> length xs \<Longrightarrow> butlast xs \<noteq> []"
  by (cases xs rule: rev_cases) auto

lemma step_past_nonempty:
  assumes "deref h st = Some s" and "past s \<noteq> []"
  shows "\<exists>h' r' s'. withHistory reducer opts i h (Some st) action = Some (h', r') \<and>
           deref h' r' = Some s' \<and> past s' \<noteq> []"
proof (cases "withHistory reducer opts i h (Some st) action = Some (h, st)")
  case True
  with assms show ?thesis by blast
next
  case False
  with assms have "\<exists>s'. withHistory reducer opts i h (Some st) action = Some (h @ [s'], length h)
      \<and> past s' \<noteq> []"
    by (auto simp: withHistory_def Let_def alloc_def slice_butlast butlast_nonempty
        split: if_splits)
  then obtain s' where "withHistory reducer opts i h (Some st) action = Some (h @ [s'], length h)"
    and "past s' \<noteq> []"
    by blast
  moreover have "deref (h @ [s']) (length h) = Some s'" by (rule deref_snoc_new)
  ultimately show ?thesis by blast
qed

lemma dispatch_past_nonempty:
  "deref h st = Some s \<Longrightarrow> past s \<noteq> [] \<Longrightarrow>
   \<exists>h' r' s'. dispatch (withHistory reducer opts i) h (Some st) as = Some (h', Some r') \<and>
     deref h' r' = Some s' \<and> past s' \<noteq> []"
proof (induction as arbitrary: h st s)
  case Nil
  then show ?case by simp
next
  case (Cons a as)
  from step_past_nonempty [OF Cons.prems, of reducer opts i a]
  obtain h1 r1 s1 where
    step: "withHistory reducer opts i h (Some st) a = Some (h1, r1)"
    and d1: "deref h1 r1 = Some s1" and p1: "past s1 \<noteq> []"
    by blast
  from Cons.IH [OF d1 p1] step show ?case by simp
qed

text \<open>
  Claim C9. \<^verbatim>\<open>past\<close> is never empty: once \<^verbatim>\<open>withHistory\<close> has built its
  \<^verbatim>\<open>initialState\<close>, every sequence of actions dispatched from it (from the object itself,
  or from \<^verbatim>\<open>undefined\<close>, which defaults to it) returns, and the state it ends in has at
  least one element in \<^verbatim>\<open>past\<close>.
\<close>

theorem past_never_empty:
  assumes "deref h i = Some (initialState reducer)"
  shows "(\<exists>h' r' s'. dispatch (withHistory reducer opts i) h (Some i) as = Some (h', Some r') \<and>
            deref h' r' = Some s' \<and> 1 \<le> length (past s')) \<and>
         (\<exists>h' r' s'. dispatch (withHistory reducer opts i) h None (a # as) = Some (h', Some r') \<and>
            deref h' r' = Some s' \<and> 1 \<le> length (past s'))"
proof -
  have init: "past (initialState reducer) \<noteq> []"
    by (simp add: initialState_def Let_def)
  have ne: "1 \<le> length xs" if "xs \<noteq> []" for xs :: "'a val list"
    using that by (cases xs) auto
  from dispatch_past_nonempty [OF assms init, of reducer opts i as]
  have first: "\<exists>h' r' s'. dispatch (withHistory reducer opts i) h (Some i) as = Some (h', Some r') \<and>
            deref h' r' = Some s' \<and> 1 \<le> length (past s')"
    using ne by blast
  from dispatch_past_nonempty [OF assms init, of reducer opts i "a # as"]
  have "\<exists>h' r' s'. dispatch (withHistory reducer opts i) h (Some i) (a # as) = Some (h', Some r') \<and>
            deref h' r' = Some s' \<and> 1 \<le> length (past s')"
    using ne by blast
  then have second: "\<exists>h' r' s'. dispatch (withHistory reducer opts i) h None (a # as) = Some (h', Some r') \<and>
            deref h' r' = Some s' \<and> 1 \<le> length (past s')"
    by (simp add: withHistory_default)
  from first second show ?thesis by blast
qed

theorem past_never_empty_witness:
  "deref [initialState counter] 0 = Some (initialState counter) \<and>
   (\<exists>h' r' s'. dispatch (withHistory counter \<lparr>resetTypes = Some [''RESET_HISTORY'']\<rparr> 0)
        [initialState counter] None
        [act ''INCREMENT'', act ''CREATE_UNDO_LEVEL'', act ''UNDO'', act ''RESET_HISTORY'']
      = Some (h', Some r') \<and>
      deref h' r' = Some s' \<and> 1 \<le> length (past s'))"
proof -
  have d: "deref [initialState counter] 0 = Some (initialState counter)"
    by (simp add: deref_def)
  from past_never_empty [OF d, of "\<lparr>resetTypes = Some [''RESET_HISTORY'']\<rparr>"
      "[act ''CREATE_UNDO_LEVEL'', act ''UNDO'', act ''RESET_HISTORY'']" "act ''INCREMENT''"]
    d show ?thesis by blast
qed

section \<open>The selectors\<close>

text \<open>
  Claim C5: \<^verbatim>\<open>hasEditorUndo\<close> is true exactly when \<^verbatim>\<open>past\<close> has more than one element,
  and \<^verbatim>\<open>hasEditorRedo\<close> exactly when \<^verbatim>\<open>future\<close> is not empty. The selector compares
  \<^verbatim>\<open>past.length\<close> with 0, not with 1. On the initial state of the merged-present reducer,
  whose \<^verbatim>\<open>past\<close> has one element, it answers that undo history exists, while the reducer
  has nothing to undo there: \<^verbatim>\<open>UNDO\<close> returns the state it was given.
\<close>

theorem hasEditorUndo_at_initial_state:
  "hasEditorUndo \<lparr>editor = initialState counter\<rparr> \<and>
   \<not> 1 < length (past (editor \<lparr>editor = initialState counter\<rparr>)) \<and>
   withHistory counter \<lparr>resetTypes = None\<rparr> 0 [initialState counter] (Some 0) (act ''UNDO'')
     = Some ([initialState counter], 0)"
  by (simp add: hasEditorUndo_def initialState_def Let_def withHistory_def deref_def act_def
      index_def emptyAction_def counter_def)

text \<open>
  Since \<^verbatim>\<open>past\<close> is never empty under the merged-present reducer, the selector is true on
  every state the reducer reaches. The half of the claim about \<^verbatim>\<open>hasEditorRedo\<close> holds.
\<close>

lemma hasEditorUndo_reachable:
  assumes "deref h i = Some (initialState reducer)"
    and "dispatch (withHistory reducer opts i) h (Some i) as = Some (h', Some r')"
    and "deref h' r' = Some s'"
  shows "hasEditorUndo \<lparr>editor = s'\<rparr>"
proof -
  have "past (initialState reducer) \<noteq> []"
    by (simp add: initialState_def Let_def)
  from dispatch_past_nonempty [OF assms(1) this, of reducer opts i as] assms(2,3)
  have "past s' \<noteq> []" by auto
  then show ?thesis by (simp add: hasEditorUndo_def)
qed

lemma hasEditorRedo_iff: "hasEditorRedo state = (0 < length (future (editor state)))"
  by (simp add: hasEditorRedo_def)

section \<open>The two variants\<close>

text \<open>
  Claim C2: the buffered and the merged-present variant correspond after every sequence
  of actions. With the counter of the tests they do after \<^verbatim>\<open>INCREMENT\<close>,
  \<^verbatim>\<open>CREATE_UNDO_LEVEL\<close>, \<^verbatim>\<open>INCREMENT\<close>. The \<^verbatim>\<open>UNDO\<close> that follows finds a changed buffer and a non-empty
  \<^verbatim>\<open>past\<close>: the buffered variant pushes the buffer to \<^verbatim>\<open>future\<close> and also drops the last
  element of \<^verbatim>\<open>past\<close>, the merged-present variant keeps \<^verbatim>\<open>past\<close>. The states no longer
  correspond, and a second \<^verbatim>\<open>UNDO\<close> leaves the buffered variant at the document of count 1
  while the merged-present variant goes back to the document of count 0.
\<close>

theorem buffered_undo_drops_checkpoint:
  "final (withHistory_buffered counter \<lparr>resetTypes = None\<rparr> 0)
       [initialState_buffered (counter Undefined emptyAction) (counter Undefined emptyAction)]
       [act ''INCREMENT'', act ''CREATE_UNDO_LEVEL'', act ''INCREMENT'']
     = Some \<lparr>past = [Doc 0], present = Doc 1, future = [], buffer = Doc 2\<rparr> \<and>
   final (withHistory counter \<lparr>resetTypes = None\<rparr> 0) [initialState counter]
       [act ''INCREMENT'', act ''CREATE_UNDO_LEVEL'', act ''INCREMENT'']
     = Some \<lparr>past = [Doc 0, Doc 1], present = Doc 2, future = []\<rparr> \<and>
   corresponds \<lparr>past = [Doc 0], present = Doc 1, future = [], buffer = Doc (2::nat)\<rparr>
     \<lparr>past = [Doc 0, Doc 1], present = Doc 2, future = []\<rparr> \<and>
   final (withHistory_buffered counter \<lparr>resetTypes = None\<rparr> 0)
       [initialState_buffered (counter Undefined emptyAction) (counter Undefined emptyAction)]
       [act ''INCREMENT'', act ''CREATE_UNDO_LEVEL'', act ''INCREMENT'', act ''UNDO'']
     = Some \<lparr>past = [], present = Doc 1, future = [Doc 2], buffer = Doc 1\<rparr> \<and>
   final (withHistory counter \<lparr>resetTypes = None\<rparr> 0) [initialState counter]
       [act ''INCREMENT'', act ''CREATE_UNDO_LEVEL'', act ''INCREMENT'', act ''UNDO'']
     = Some \<lparr>past = [Doc 0, Doc 1], present = Doc 1, future = [Doc 2]\<rparr> \<and>
   \<not> corresponds \<lparr>past = [], present = Doc 1, future = [Doc 2], buffer = Doc (1::nat)\<rparr>
     \<lparr>past = [Doc 0, Doc 1], present = Doc 1, future = [Doc 2]\<rparr> \<and>
   final (withHistory_buffered counter \<lparr>resetTypes = None\<rparr> 0)
       [initialState_buffered (counter Undefined emptyAction) (counter Undefined emptyAction)]
       [act ''INCREMENT'', act ''CREATE_UNDO_LEVEL'', act ''INCREMENT'', act ''UNDO'', act ''UNDO'']
     = Some \<lparr>past = [], present = Doc 1, future = [Doc 2], buffer = Doc 1\<rparr> \<and>
   final (withHistory counter \<lparr>resetTypes = None\<rparr> 0) [initialState counter]
       [act ''INCREMENT'', act ''CREATE_UNDO_LEVEL'', act ''INCREMENT'', act ''UNDO'', act ''UNDO'']
     = Some \<lparr>past = [Doc 0], present = Doc 0, future = [Doc 1, Doc 2]\<rparr>"
  by (simp add: final_def current_def withHistory_def withHistory_buffered_def
      initialState_def initialState_buffered_def emptyAction_def corresponds_def
      deref_def act_def index_def slice_def alloc_def Let_def counter_def)

text \<open>
  The run does not depend on the object the first initial call returned: that object is
  only ever compared with the document \<^verbatim>\<open>INCREMENT\<close> built, from which it differs.
\<close>

lemma buffered_run_any_initial_present:
  "initialPresent \<noteq> Doc 1 \<Longrightarrow>
   final (withHistory_buffered counter \<lparr>resetTypes = None\<rparr> 0)
       [initialState_buffered initialPresent (Doc 0)]
       [act ''INCREMENT'', act ''CREATE_UNDO_LEVEL'', act ''INCREMENT'', act ''UNDO'']
     = Some \<lparr>past = [], present = Doc 1, future = [Doc 2], buffer = Doc 1\<rparr>"
  by (simp add: final_def current_def withHistory_buffered_def initialState_buffered_def
      deref_def act_def index_def slice_def alloc_def Let_def counter_def)

text \<open>
  The initial states correspond only when both initial calls of the buffered variant
  return the document the merged-present variant starts with. When they return two
  objects, the buffered variant starts with a changed buffer: a first
  \<^verbatim>\<open>CREATE_UNDO_LEVEL\<close> commits a level there, and is a no-op in the merged-present variant.
\<close>

lemma corresponds_initial:
  "corresponds (initialState_buffered initialPresent initialBuffer) (initialState reducer) =
     (initialPresent = reducer Undefined emptyAction \<and>
      initialBuffer = reducer Undefined emptyAction)"
  by (auto simp: corresponds_def initialState_buffered_def initialState_def Let_def)

lemma buffered_initial_checkpoint:
  assumes "type action = Some ''CREATE_UNDO_LEVEL''" and "initialPresent \<noteq> initialBuffer"
  shows "withHistory_buffered reducer opts 0
             [initialState_buffered initialPresent initialBuffer] None action
           = Some ([initialState_buffered initialPresent initialBuffer,
                    \<lparr>past = [initialPresent], present = initialBuffer, future = [],
                     buffer = initialBuffer\<rparr>], 1)"
    and "withHistory reducer opts 0 [initialState reducer] None action
           = Some ([initialState reducer], 0)"
  using assms
  by (simp_all add: withHistory_buffered_def withHistory_def initialState_buffered_def
      initialState_def deref_def alloc_def index_def Let_def)

text \<open>
  From corresponding states, a dispatch leads to corresponding states unless it is an
  \<^verbatim>\<open>UNDO\<close> with a changed buffer and a non-empty buffered \<^verbatim>\<open>past\<close>.
\<close>

lemma corresponds_step:
  assumes db: "deref hb rb = Some b" and dm: "deref hm rm = Some m" and c: "corresponds b m"
    and ok: "\<not> (type action = Some ''UNDO'' \<and> present b \<noteq> buffer b \<and> past b \<noteq> [])"
  shows "\<exists>hb' rb' hm' rm' b' m'.
           withHistory_buffered reducer opts ib hb (Some rb) action = Some (hb', rb') \<and>
           withHistory reducer opts im hm (Some rm) action = Some (hm', rm') \<and>
           deref hb' rb' = Some b' \<and> deref hm' rm' = Some m' \<and> corresponds b' m'"
proof (cases "type action = Some ''UNDO'' \<and> present b = buffer b \<and> past b \<noteq> []")
  case True
  then obtain ys y where ys: "past b = ys @ [y]" by (cases "past b" rule: rev_cases) auto
  with c have pm: "past m = ys @ [y, present b]" by (simp add: corresponds_def)
  have sl: "slice (ys @ [y, present b]) 0 (Some (int (length (ys @ [y, present b])) - 1)) = ys @ [y]"
    by (simp only: slice_butlast) (simp add: butlast_append)
  have sb: "slice (ys @ [y]) 0 (Some (int (length (ys @ [y])) - 1)) = ys"
    by (simp only: slice_butlast) simp
  from True db ys sb have 1: "withHistory_buffered reducer opts ib hb (Some rb) action =
      Some (hb @ [\<lparr>past = ys, present = y, future = present b # future b, buffer = y\<rparr>],
            length hb)"
    by (simp add: withHistory_buffered_def Let_def alloc_def index_def nth_append)
  from True c have pr: "present m = present b" and fu: "future m = future b"
    by (simp_all add: corresponds_def)
  have ix: "index (ys @ [y, present b]) (int (length (ys @ [y, present b])) - 1) = present b"
    "index (ys @ [y, present b]) (int (length (ys @ [y, present b])) - 2) = y"
    by (auto simp: index_def nth_append nat_add_distrib)
  have ln: "\<not> length (ys @ [y, present b]) < 2" by simp
  from True dm pm pr fu sl ix ln have 2: "withHistory reducer opts im hm (Some rm) action =
      Some (hm @ [\<lparr>past = ys @ [y], present = y, future = present b # future b\<rparr>], length hm)"
    by (simp add: withHistory_def Let_def alloc_def del: length_append)
  have 3: "corresponds \<lparr>past = ys, present = y, future = present b # future b, buffer = y\<rparr>
      \<lparr>past = ys @ [y], present = y, future = present b # future b\<rparr>"
    by (simp add: corresponds_def)
  have 4: "deref (hb @ [\<lparr>past = ys, present = y, future = present b # future b, buffer = y\<rparr>])
      (length hb) = Some \<lparr>past = ys, present = y, future = present b # future b, buffer = y\<rparr>"
    by (rule deref_snoc_new)
  have 5: "deref (hm @ [\<lparr>past = ys @ [y], present = y, future = present b # future b\<rparr>])
      (length hm) = Some \<lparr>past = ys @ [y], present = y, future = present b # future b\<rparr>"
    by (rule deref_snoc_new)
  from 1 2 3 4 5 show ?thesis by blast
next
  case False
  with ok have other: "type action = Some ''UNDO'' \<longrightarrow> past b = []" by blast
  from c have pm: "past m = past b @ [present b]" and pr: "present m = buffer b"
    and fu: "future m = future b"
    by (simp_all add: corresponds_def)
  from db dm pm pr fu other show ?thesis
    by (auto simp: withHistory_def withHistory_buffered_def Let_def alloc_def deref_snoc_new
        corresponds_def index_def nth_append slice_def)
qed

end
